theory Spec2Isabelle
  imports Complex_Main
begin

section \<open>Agents, serialisation and the reconstruction cache (lecture\_03/schelling.py)\<close>

text \<open>
  An agent's identity is the triple \<open>(id, type, rank)\<close> that the base class builds from the
  constructor's arguments; every \<open>SchellingAgent\<close> passes the class constant \<open>SchellingAgent.TYPE = 0\<close>, written \<open>AGENT_TYPE\<close>.
  Python floats (the threshold) are idealised as exact rationals.
\<close>

type_synonym uid = "nat \<times> nat \<times> nat"

definition AGENT_TYPE :: nat where
  "AGENT_TYPE = 0"

record SchellingAgent =
  a_id :: nat
  a_rank :: nat
  agent_type :: int
  threshold :: rat
  happy :: bool
  always_happy :: bool

definition uid :: "SchellingAgent \<Rightarrow> uid" where
  "uid a = (a_id a, AGENT_TYPE, a_rank a)"

text \<open>\<open>SchellingAgent.__init__\<close>: a fresh agent starts unhappy.\<close>

definition new_agent :: "nat \<Rightarrow> nat \<Rightarrow> int \<Rightarrow> rat \<Rightarrow> bool \<Rightarrow> SchellingAgent" where
  "new_agent i r t th ah =
     \<lparr>a_id = i, a_rank = r, agent_type = t, threshold = th, happy = False, always_happy = ah\<rparr>"

text \<open>
  The serialised tuple \<open>(uid, agent_type, threshold, happy, always_happy)\<close>. The reader accepts
  a tuple without its fifth component (\<open>len(agent_data) > 4\<close>), which is \<open>None\<close> here.
\<close>

type_synonym agent_data = "uid \<times> int \<times> rat \<times> bool \<times> bool option"

definition save :: "SchellingAgent \<Rightarrow> agent_data" where
  "save a = (uid a, agent_type a, threshold a, happy a, Some (always_happy a))"

text \<open>
  Agents are objects: the store maps addresses to objects, \<open>nxt\<close> is the next free address,
  and the module-level dictionary \<open>agent_cache\<close> maps identities to addresses.
\<close>

record store =
  heap :: "nat \<Rightarrow> SchellingAgent"
  nxt :: nat
  agent_cache :: "uid \<rightharpoonup> nat"

definition restore_agent :: "agent_data \<Rightarrow> store \<Rightarrow> nat \<times> store" where
  "restore_agent agent_data s =
     (case agent_data of (u, ty, th, hp, ah) \<Rightarrow>
        (case agent_cache s u of
           Some p \<Rightarrow> (p, s\<lparr>heap := (heap s)(p := (heap s p)\<lparr>happy := hp\<rparr>)\<rparr>)
         | None \<Rightarrow>
             (let always = (case ah of Some b \<Rightarrow> b | None \<Rightarrow> False);
                  agent = new_agent (fst u) (snd (snd u)) ty th always;
                  p = nxt s
              in (p, s\<lparr>heap := (heap s)(p := agent\<lparr>happy := hp\<rparr>),
                       nxt := Suc p,
                       agent_cache := (agent_cache s)(u \<mapsto> p)\<rparr>))))"

text \<open>The attributes that no code path assigns after construction.\<close>

definition attrs :: "SchellingAgent \<Rightarrow> int \<times> rat \<times> bool" where
  "attrs a = (agent_type a, threshold a, always_happy a)"

text \<open>
  The cache states of a run over a population \<open>pop\<close> (identity to fixed attributes): the
  module is loaded with an empty cache, \<open>restore_agent\<close> is called on the records of the
  population's agents, and agent steps assign \<open>happy\<close> on any object.
\<close>

inductive reachable :: "(uid \<Rightarrow> int \<times> rat \<times> bool) \<Rightarrow> store \<Rightarrow> bool" for pop where
  init: "agent_cache s = Map.empty \<Longrightarrow> reachable pop s"
| restore: "reachable pop s \<Longrightarrow> attrs a = pop (uid a) \<Longrightarrow>
            reachable pop (snd (restore_agent (save a) s))"
| set_happy: "reachable pop s \<Longrightarrow>
            reachable pop (s\<lparr>heap := (heap s)(p := (heap s p)\<lparr>happy := b\<rparr>)\<rparr>)"

definition cache_inv :: "(uid \<Rightarrow> int \<times> rat \<times> bool) \<Rightarrow> store \<Rightarrow> bool" where
  "cache_inv pop s \<longleftrightarrow>
     (\<forall>u p. agent_cache s u = Some p \<longrightarrow>
        p < nxt s \<and> uid (heap s p) = u \<and> attrs (heap s p) = pop u)"

text \<open>A small run for the cache: an empty store, one agent, and the store after its record
  has been restored once.\<close>

definition store0 :: store where
  "store0 = \<lparr>heap = (\<lambda>_. new_agent 0 0 0 0 False), nxt = 0, agent_cache = Map.empty\<rparr>"

definition agent0 :: SchellingAgent where
  "agent0 = \<lparr>a_id = 3, a_rank = 1, agent_type = 1, threshold = 1/2, happy = True,
             always_happy = False\<rparr>"

definition store1 :: store where
  "store1 = snd (restore_agent (save agent0) store0)"

section \<open>Neighbourhood offsets (lecture\_03/schelling.py and lec04/schelling/neighborhoods.py)\<close>

text \<open>Python's \<open>range(lo, hi)\<close> on integers.\<close>

definition py_range :: "int \<Rightarrow> int \<Rightarrow> int list" where
  "py_range lo hi = [lo..hi - 1]"

text \<open>
  \<open>get_neighborhood_offsets\<close> of lecture\_03 returns the two offset arrays \<open>(mo, no)\<close>. Each
  pair of nested loops appends \<open>x\<close> and \<open>y\<close> together, so the two arrays are the components
  of one list of pairs in loop order. The last branch is the default of the source.
\<close>

definition get_neighborhood_offsets :: "string \<Rightarrow> int list \<times> int list" where
  "get_neighborhood_offsets name =
     (if name = ''4'' then ([0, 0, 1, -1], [1, -1, 0, 0])
      else if name = ''12'' then
        (let ps = [(x, y). x \<leftarrow> py_range (-2) 3, y \<leftarrow> py_range (-2) 3,
                   0 < \<bar>x\<bar> + \<bar>y\<bar> \<and> \<bar>x\<bar> + \<bar>y\<bar> \<le> 2]
         in (map fst ps, map snd ps))
      else if name = ''24'' then
        (let ps = [(x, y). x \<leftarrow> py_range (-2) 3, y \<leftarrow> py_range (-2) 3, \<not> (x = 0 \<and> y = 0)]
         in (map fst ps, map snd ps))
      else if name = ''48'' then
        (let ps = [(x, y). x \<leftarrow> py_range (-3) 4, y \<leftarrow> py_range (-3) 4, \<not> (x = 0 \<and> y = 0)]
         in (map fst ps, map snd ps))
      else if name = ''80'' then
        (let ps = [(x, y). x \<leftarrow> py_range (-4) 5, y \<leftarrow> py_range (-4) 5, \<not> (x = 0 \<and> y = 0)]
         in (map fst ps, map snd ps))
      else ([-1, 0, 1, -1, 1, -1, 0, 1], [1, 1, 1, 0, 0, -1, -1, -1]))"

text \<open>The offsets the two arrays stand for: entry \<open>k\<close> of \<open>mo\<close> with entry \<open>k\<close> of \<open>no\<close>.\<close>

definition offset_pairs :: "int list \<times> int list \<Rightarrow> (int \<times> int) list" where
  "offset_pairs a = zip (fst a) (snd a)"

text \<open>The offset lists of lec04/schelling/neighborhoods.py.\<close>

definition get_von_neumann_offsets :: "int \<Rightarrow> (int \<times> int) list" where
  "get_von_neumann_offsets radius =
     [(dx, dy). dx \<leftarrow> py_range (- radius) (radius + 1), dy \<leftarrow> py_range (- radius) (radius + 1),
                0 < \<bar>dx\<bar> + \<bar>dy\<bar> \<and> \<bar>dx\<bar> + \<bar>dy\<bar> \<le> radius]"

definition get_moore_offsets :: "int \<Rightarrow> (int \<times> int) list" where
  "get_moore_offsets radius =
     [(dx, dy). dx \<leftarrow> py_range (- radius) (radius + 1), dy \<leftarrow> py_range (- radius) (radius + 1),
                \<not> (dx = 0 \<and> dy = 0), max \<bar>dx\<bar> \<bar>dy\<bar> \<le> radius]"

definition get_extended_offsets :: "int \<Rightarrow> (int \<times> int) list" where
  "get_extended_offsets radius = get_moore_offsets radius"

datatype NeighborhoodType = VON_NEUMANN | MOORE | EXTENDED

text \<open>
  The argument of the dispatcher is not checked by Python: \<open>NotAKind\<close> stands for any value
  that is not a member of the enumeration, which reaches the final \<open>else\<close> and raises.
\<close>

datatype kind_arg = Kind NeighborhoodType | NotAKind

datatype error = ValueError

definition get_neighborhood_offsets_lec04 :: "kind_arg \<Rightarrow> int \<Rightarrow> error + (int \<times> int) list" where
  "get_neighborhood_offsets_lec04 neighborhood_type radius =
     (if neighborhood_type = Kind VON_NEUMANN then Inr (get_von_neumann_offsets radius)
      else if neighborhood_type = Kind MOORE then Inr (get_moore_offsets radius)
      else if neighborhood_type = Kind EXTENDED then
        Inr (get_extended_offsets (if radius > 1 then radius else 2))
      else Inl ValueError)"

text \<open>The offsets at Manhattan, respectively Chebyshev, distance in \<open>(0, r]\<close>.\<close>

definition manhattan_ball :: "int \<Rightarrow> (int \<times> int) set" where
  "manhattan_ball r = {(dx, dy). 0 < \<bar>dx\<bar> + \<bar>dy\<bar> \<and> \<bar>dx\<bar> + \<bar>dy\<bar> \<le> r}"

definition chebyshev_ball :: "int \<Rightarrow> (int \<times> int) set" where
  "chebyshev_ball r = {(dx, dy). 0 < max \<bar>dx\<bar> \<bar>dy\<bar> \<and> max \<bar>dx\<bar> \<bar>dy\<bar> \<le> r}"

section \<open>Neighbour lookup (lecture\_03/schelling.py, GridNghFinder)\<close>

text \<open>
  The finder holds the offset arrays and the bounds of the world. Coordinates are unbounded
  integers here: the sums of a grid coordinate and an offset of magnitude at most 4 are far
  from the range of the machine integers the compiled class adds.
\<close>

record GridNghFinder =
  mo :: "int list"
  no :: "int list"
  xmin :: int
  ymin :: int
  ymax :: int
  xmax :: int

text \<open>numpy's boolean-mask indexing \<open>xs[mask]\<close>.\<close>

definition mask_index :: "'a list \<Rightarrow> bool list \<Rightarrow> 'a list" where
  "mask_index xs msk = map fst (filter snd (zip xs msk))"

definition GridNghFinder_find :: "GridNghFinder \<Rightarrow> int \<Rightarrow> int \<Rightarrow> (int \<times> int \<times> int) list" where
  "GridNghFinder_find f x y =
     (let xs = map (\<lambda>m. m + x) (mo f);
          ys = map (\<lambda>n. n + y) (no f);
          xd = map (\<lambda>v. xmin f \<le> v \<and> v < xmax f) xs;
          xs = mask_index xs xd;
          ys = mask_index ys xd;
          yd = map (\<lambda>v. ymin f \<le> v \<and> v < ymax f) ys;
          xs = mask_index xs yd;
          ys = mask_index ys yd
      in map (\<lambda>(a, b). (a, b, 0)) (zip xs ys))"

definition new_GridNghFinder ::
    "int \<Rightarrow> int \<Rightarrow> int \<Rightarrow> int \<Rightarrow> int list \<Rightarrow> int list \<Rightarrow> GridNghFinder" where
  "new_GridNghFinder x0 y0 x1 y1 m n =
     \<lparr>mo = m, no = n, xmin = x0, ymin = y0, ymax = y1, xmax = x1\<rparr>"

text \<open>A coordinate inside the bounds of the finder.\<close>

definition in_bounds :: "GridNghFinder \<Rightarrow> int \<times> int \<Rightarrow> bool" where
  "in_bounds f p \<longleftrightarrow> xmin f \<le> fst p \<and> fst p < xmax f \<and> ymin f \<le> snd p \<and> snd p < ymax f"

section \<open>Neighbour lookup of the Mesa model (lec04/schelling/agents.py)\<close>

text \<open>
  \<open>dims\<close> is \<open>Some (width, height)\<close> when the grid object has a \<open>width\<close> attribute
  (\<open>hasattr(self.model.grid, "width")\<close>) and \<open>None\<close> otherwise. Python's \<open>%\<close> on
  integers is the floor modulus, as \<open>mod\<close> on \<open>int\<close>.
\<close>

definition neighbor_coords_lec04 ::
    "(int \<times> int) option \<Rightarrow> (int \<times> int) list \<Rightarrow> int \<times> int \<Rightarrow> (int \<times> int) list" where
  "neighbor_coords_lec04 dims offsets pos =
     map (\<lambda>(dx, dy).
            (let nx = fst pos + dx; ny = snd pos + dy
             in (case dims of Some (w, h) \<Rightarrow> (nx mod w, ny mod h) | None \<Rightarrow> (nx, ny))))
         offsets"

definition get_neighbors_lec04 ::
    "(int \<times> int) option \<Rightarrow> (int \<times> int \<rightharpoonup> 'a list) \<Rightarrow> kind_arg \<Rightarrow> int \<Rightarrow> int \<times> int
       \<Rightarrow> error + 'a list" where
  "get_neighbors_lec04 dims cells neighborhood_type neighborhood_radius pos =
     (case get_neighborhood_offsets_lec04 neighborhood_type neighborhood_radius of
        Inl e \<Rightarrow> Inl e
      | Inr offsets \<Rightarrow>
          Inr (concat (map (\<lambda>c. case cells c of None \<Rightarrow> [] | Some ags \<Rightarrow> ags)
                           (neighbor_coords_lec04 dims offsets pos))))"

text \<open>\<open>ThresholdUtility.calculate\<close> and the happiness test of \<open>assign_state\<close>.\<close>

definition ThresholdUtility_calculate :: "rat \<Rightarrow> nat \<Rightarrow> nat \<Rightarrow> rat" where
  "ThresholdUtility_calculate thr similar_count total_count =
     (if total_count = 0 then 0
      else (let similarity_fraction = of_nat similar_count / of_nat total_count
            in if similarity_fraction \<ge> thr then 1 else 0))"

definition assign_state_happy :: "rat \<Rightarrow> int \<Rightarrow> int list \<Rightarrow> bool" where
  "assign_state_happy thr own_type neighbor_types =
     (let total_count = length neighbor_types;
          similar_count = length (filter (\<lambda>t. t = own_type) neighbor_types);
          utility = ThresholdUtility_calculate thr similar_count total_count;
          happiness_threshold = 1 / 2
      in utility \<ge> happiness_threshold)"

section \<open>The agent step (lecture\_03/schelling.py, SchellingAgent.step and move)\<close>

text \<open>
  The part of the model an agent step reads and writes: the agents of the context by
  identity, the occupants of each grid cell (\<open>grid.get_agents\<close>, local and buffered), the
  location of each agent (\<open>grid.get_location\<close>), the neighbour finder, and the random
  generator as the sequence of points \<open>grid.get_random_local_pt\<close> will return, with the
  number of points drawn so far.
\<close>

record model_state =
  agents :: "uid \<Rightarrow> SchellingAgent"
  cells :: "int \<times> int \<Rightarrow> uid list"
  location :: "uid \<rightharpoonup> int \<times> int"
  ngh_finder :: GridNghFinder
  rng_pts :: "nat \<Rightarrow> int \<times> int"
  rng_pos :: nat

text \<open>\<open>SharedGrid.move\<close> on a single-occupancy grid: an occupied destination refuses the move.\<close>

definition grid_move :: "uid \<Rightarrow> int \<times> int \<Rightarrow> model_state \<Rightarrow> model_state" where
  "grid_move u dest m =
     (if cells m dest \<noteq> [] then m
      else (let cs = (case location m u of
                        None \<Rightarrow> cells m
                      | Some old \<Rightarrow> (cells m)(old := removeAll u (cells m old)))
            in m\<lparr>cells := cs(dest := cs dest @ [u]), location := (location m)(u \<mapsto> dest)\<rparr>))"

text \<open>The loop \<open>for _ in range(100)\<close> of \<open>move\<close>, by the number of attempts left.\<close>

fun move_attempts :: "nat \<Rightarrow> uid \<Rightarrow> model_state \<Rightarrow> model_state" where
  "move_attempts 0 u m = m"
| "move_attempts (Suc k) u m =
     (let dest = rng_pts m (rng_pos m);
          m1 = m\<lparr>rng_pos := Suc (rng_pos m)\<rparr>
      in if cells m1 dest = [] then grid_move u dest m1
         else move_attempts k u m1)"

definition move :: "uid \<Rightarrow> model_state \<Rightarrow> model_state" where
  "move u m = move_attempts 100 u m"

text \<open>The counting loop of \<open>step\<close> over the occupants of the neighbour cells.\<close>

definition count_neighbor ::
    "SchellingAgent \<Rightarrow> SchellingAgent \<Rightarrow> nat \<times> nat \<Rightarrow> nat \<times> nat" where
  "count_neighbor self neighbor acc =
     (case acc of (similar, total_neighbors) \<Rightarrow>
        if uid neighbor \<noteq> uid self then
          (if agent_type neighbor = agent_type self then similar + 1 else similar,
           total_neighbors + 1)
        else (similar, total_neighbors))"

definition neighbors_of :: "model_state \<Rightarrow> int \<times> int \<Rightarrow> SchellingAgent list" where
  "neighbors_of m pt =
     concat (map (\<lambda>(x, y, z). map (agents m) (cells m (x, y)))
                 (GridNghFinder_find (ngh_finder m) (fst pt) (snd pt)))"

definition step :: "uid \<Rightarrow> model_state \<Rightarrow> model_state" where
  "step u m =
     (case location m u of
        None \<Rightarrow> m
      | Some pt \<Rightarrow>
          (let self = agents m u in
           if always_happy self then m\<lparr>agents := (agents m)(u := self\<lparr>happy := True\<rparr>)\<rparr>
           else
             (let (similar, total_neighbors) = fold (count_neighbor self) (neighbors_of m pt) (0, 0);
                  hp = (if total_neighbors > 0
                        then (let similarity = of_nat similar / of_nat total_neighbors
                              in similarity \<ge> threshold self)
                        else True);
                  m1 = m\<lparr>agents := (agents m)(u := self\<lparr>happy := hp\<rparr>)\<rparr>
              in if \<not> hp then move u m1 else m1)))"

text \<open>
  A concrete scene: a 3 by 3 world with the 8-neighbour topology, an agent of group 0 at
  \<open>(0, 0)\<close> and an agent of group 1 at \<open>(1, 1)\<close>, both with threshold 1. The generator
  first returns the occupied point \<open>(1, 1)\<close> and then \<open>(2, 2)\<close>; in \<open>scene_full\<close> it
  returns \<open>(1, 1)\<close> forever.
\<close>

definition scene :: model_state where
  "scene =
     \<lparr>agents = (\<lambda>u. if u = (1, 0, 0) then new_agent 1 0 1 1 False else new_agent 0 0 0 1 False),
      cells = (\<lambda>p. if p = (0, 0) then [(0, 0, 0)] else if p = (1, 1) then [(1, 0, 0)] else []),
      location = [(0, 0, 0) \<mapsto> (0, 0), (1, 0, 0) \<mapsto> (1, 1)],
      ngh_finder = new_GridNghFinder 0 0 3 3 (fst (get_neighborhood_offsets ''8''))
                     (snd (get_neighborhood_offsets ''8'')),
      rng_pts = (\<lambda>k. if k = 0 then (1, 1) else (2, 2)),
      rng_pos = 0\<rparr>"

definition scene_full :: model_state where
  "scene_full = scene\<lparr>rng_pts := (\<lambda>k. (1, 1))\<rparr>"

section \<open>The scheduler (lecture\_03/schelling.py, Model.\_\_init\_\_ and Model.step)\<close>

text \<open>The runner: the current tick, the flag \<open>go\<close> of its loop, and the log of step ticks.\<close>

record runner =
  tick :: nat
  go :: bool
  steps :: "nat list"

definition stop :: "runner \<Rightarrow> runner" where
  "stop r = r\<lparr>go := False\<rparr>"

text \<open>
  The end of \<open>Model.step\<close>: each rank counts its agents and its happy agents, the
  differences are summed over the ranks (\<open>comm.allreduce\<close> with \<open>MPI.SUM\<close>), and a sum of 0
  stops the runner. A world is the list, by rank, of the agents each rank holds.
\<close>

definition local_unhappy :: "SchellingAgent list \<Rightarrow> nat" where
  "local_unhappy ags =
     (let local_total = length ags; local_happy = length (filter happy ags)
      in local_total - local_happy)"

definition total_unhappy :: "SchellingAgent list list \<Rightarrow> nat" where
  "total_unhappy ranks = sum_list (map local_unhappy ranks)"

definition Model_step_stop :: "SchellingAgent list list \<Rightarrow> runner \<Rightarrow> runner" where
  "Model_step_stop ranks r = (if total_unhappy ranks = 0 then stop r else r)"

text \<open>
  Modelled from the spec: the schedule runner (\<open>schedule.init_schedule_runner\<close> of the
  repast4py library, with \<open>schedule_repeating_event\<close>, \<open>schedule_stop\<close>, \<open>stop\<close> and
  \<open>execute\<close>), which is not under src/. \<open>Model.__init__\<close> schedules \<open>step\<close> at tick 1 and
  every tick after it and the stop at tick \<open>stop.at\<close>; the runner executes the events of
  the next tick while \<open>go\<close> holds (the state Running), \<open>step\<close> before the stop event of
  the same tick; with \<open>go\<close> false the run is Terminating and the end events follow.
  \<open>world t\<close> is the world \<open>Model.step\<close> counts at tick \<open>t\<close>; \<open>steps\<close> logs the ticks at
  which \<open>step\<close> ran.
\<close>

function execute ::
    "nat \<Rightarrow> (nat \<Rightarrow> SchellingAgent list list) \<Rightarrow> runner \<Rightarrow> runner" where
  "execute stop_at world r =
     (if \<not> go r then r
      else if stop_at < tick r + 1 then stop r
      else (let r1 = r\<lparr>tick := tick r + 1, steps := steps r @ [tick r + 1]\<rparr>;
                r2 = Model_step_stop (world (tick r1)) r1;
                r3 = (if tick r1 = stop_at then stop r2 else r2)
            in execute stop_at world r3))"
  by pat_completeness auto
termination
  by (relation "measure (\<lambda>(stop_at, world, r). if go r then 2 + stop_at - tick r else 0)")
    (auto simp: Model_step_stop_def stop_def)

definition run :: "nat \<Rightarrow> (nat \<Rightarrow> SchellingAgent list list) \<Rightarrow> runner" where
  "run stop_at world = execute stop_at world \<lparr>tick = 0, go = True, steps = []\<rparr>"

text \<open>
  Two runs. In \<open>world_settles\<close> three ranks hold agents: the agent of rank 0 is always happy,
  rank 1 holds a happy agent and one that is happy from tick 3 on, and the agent of rank 2 is
  happy from tick 2 on. In \<open>world_saturated\<close> the single agent is never happy.
\<close>

definition world_settles :: "nat \<Rightarrow> SchellingAgent list list" where
  "world_settles t =
     [[(new_agent 0 0 0 (1/2) False)\<lparr>happy := True\<rparr>],
      [(new_agent 0 1 1 (1/2) False)\<lparr>happy := True\<rparr>,
       (new_agent 1 1 0 (1/2) False)\<lparr>happy := (3 \<le> t)\<rparr>],
      [(new_agent 0 2 1 (1/2) False)\<lparr>happy := (2 \<le> t)\<rparr>]]"

definition world_saturated :: "nat \<Rightarrow> SchellingAgent list list" where
  "world_saturated t = [[new_agent 0 0 0 1 False]]"

section \<open>The segregation metric (lecture\_03/scripts/final\_stats.py and analysis\_utils.py)\<close>

text \<open>
  A grid matrix is a two-dimensional array of floats in which NaN marks an empty cell: its
  shape and its entries, \<open>None\<close> for NaN. Floats are idealised as exact rationals, so a sum
  does not depend on the order of its terms. The result \<open>None\<close> is the value \<open>np.nan\<close> that
  both functions return when the metric is undefined.
\<close>

record grid_matrix =
  rows :: nat
  cols :: nat
  cell :: "nat \<Rightarrow> nat \<Rightarrow> rat option"

text \<open>The index pairs of the array in row-major order.\<close>

definition indices :: "grid_matrix \<Rightarrow> (nat \<times> nat) list" where
  "indices g = List.product [0..<rows g] [0..<cols g]"

subsection \<open>The nested-loop implementation (final\_stats.py)\<close>

definition neighbors_offsets :: "(int \<times> int) list" where
  "neighbors_offsets = [(-1, -1), (-1, 0), (-1, 1), (0, -1), (0, 1), (1, -1), (1, 0), (1, 1)]"

text \<open>\<open>grid_matrix[valid_mask]\<close>: the entries that are not NaN, in row-major order.\<close>

definition values_of :: "grid_matrix \<Rightarrow> rat list" where
  "values_of g = List.map_filter (\<lambda>(r, c). cell g r c) (indices g)"

definition np_mean :: "rat list \<Rightarrow> rat" where
  "np_mean vs = sum_list vs / of_nat (length vs)"

text \<open>The body of the innermost loop, over the offsets, on the accumulators \<open>(num, W)\<close>.\<close>

definition pair_step ::
    "grid_matrix \<Rightarrow> rat \<Rightarrow> rat \<Rightarrow> nat \<Rightarrow> nat \<Rightarrow> int \<times> int \<Rightarrow> rat \<times> rat \<Rightarrow> rat \<times> rat" where
  "pair_step g mean_val val_i r c off acc =
     (case off of (dr, dc) \<Rightarrow>
      case acc of (num, W) \<Rightarrow>
        (let nr = int r + dr; nc = int c + dc
         in if 0 \<le> nr \<and> nr < int (rows g) \<and> 0 \<le> nc \<and> nc < int (cols g) then
              (case cell g (nat nr) (nat nc) of
                 None \<Rightarrow> (num, W)
               | Some val_j \<Rightarrow> (num + (val_i - mean_val) * (val_j - mean_val), W + 1))
            else (num, W)))"

text \<open>The body of the loop over the cells: a NaN cell is skipped.\<close>

definition cell_step :: "grid_matrix \<Rightarrow> rat \<Rightarrow> nat \<Rightarrow> nat \<Rightarrow> rat \<times> rat \<Rightarrow> rat \<times> rat" where
  "cell_step g mean_val r c acc =
     (case cell g r c of
        None \<Rightarrow> acc
      | Some val_i \<Rightarrow> fold (pair_step g mean_val val_i r c) neighbors_offsets acc)"

definition calculate_morans_i_loop :: "grid_matrix \<Rightarrow> rat option" where
  "calculate_morans_i_loop g =
     (let vals = values_of g
      in if length vals < 2 then None
         else
           (let N = length vals;
                mean_val = np_mean vals;
                denom = sum_list (map (\<lambda>v. (v - mean_val)\<^sup>2) vals)
            in if denom = 0 then None
               else
                 (let (num, W) =
                        fold (\<lambda>r. fold (\<lambda>c. cell_step g mean_val r c) [0..<cols g])
                          [0..<rows g] (0, 0)
                  in if W = 0 then None
                     else Some ((of_nat N / W) * (num / denom)))))"

subsection \<open>The convolution implementation (analysis\_utils.py)\<close>

text \<open>\<open>np.sum(a)\<close> over a whole array and \<open>np.sum(a[mask])\<close> over the masked entries.\<close>

definition np_sum :: "grid_matrix \<Rightarrow> (nat \<Rightarrow> nat \<Rightarrow> 'a::comm_monoid_add) \<Rightarrow> 'a" where
  "np_sum g a = sum_list (map (\<lambda>(r, c). a r c) (indices g))"

definition np_sum_masked ::
    "grid_matrix \<Rightarrow> (nat \<Rightarrow> nat \<Rightarrow> bool) \<Rightarrow> (nat \<Rightarrow> nat \<Rightarrow> 'a::comm_monoid_add) \<Rightarrow> 'a" where
  "np_sum_masked g msk a =
     sum_list (map (\<lambda>(r, c). a r c) (filter (\<lambda>(r, c). msk r c) (indices g)))"

definition kernel :: "int list list" where
  "kernel = [[1, 1, 1], [1, 0, 1], [1, 1, 1]]"

text \<open>
  \<open>scipy.signal.convolve2d(a, k, mode="same", boundary="fill", fillvalue=0)\<close> for a 3 by 3
  kernel, as the library documents it: the array is padded with zeros, and the entry at
  \<open>(r, c)\<close> is the sum of \<open>k[i][j] * a[r + 1 - i][c + 1 - j]\<close> over the kernel's indices.
\<close>

definition padded :: "grid_matrix \<Rightarrow> (nat \<Rightarrow> nat \<Rightarrow> 'a::comm_ring_1) \<Rightarrow> int \<Rightarrow> int \<Rightarrow> 'a" where
  "padded g a i j =
     (if 0 \<le> i \<and> i < int (rows g) \<and> 0 \<le> j \<and> j < int (cols g) then a (nat i) (nat j) else 0)"

definition convolve2d ::
    "grid_matrix \<Rightarrow> (nat \<Rightarrow> nat \<Rightarrow> 'a::comm_ring_1) \<Rightarrow> int list list \<Rightarrow> nat \<Rightarrow> nat \<Rightarrow> 'a" where
  "convolve2d g a k r c =
     sum_list (map (\<lambda>(i, j). of_int (k ! i ! j) * padded g a (int r + 1 - int i) (int c + 1 - int j))
                   (List.product [0..<3] [0..<3]))"

definition calculate_morans_i_conv :: "grid_matrix \<Rightarrow> rat option" where
  "calculate_morans_i_conv g =
     (let msk = (\<lambda>r c. cell g r c \<noteq> None);
          vals = (\<lambda>r c. case cell g r c of None \<Rightarrow> 0 | Some v \<Rightarrow> v);
          N = np_sum g (\<lambda>r c. if msk r c then (1::nat) else 0)
      in if N < 2 then None
         else
           (let mean_val = np_sum g vals / of_nat N;
                z = (\<lambda>r c. if msk r c then vals r c - mean_val else 0);
                denom = np_sum_masked g msk (\<lambda>r c. (z r c)\<^sup>2)
            in if denom = 0 then None
               else
                 (let valid_neighbor_counts =
                        convolve2d g (\<lambda>r c. if msk r c then (1::int) else 0) kernel;
                      W = np_sum_masked g msk valid_neighbor_counts
                  in if W = 0 then None
                     else
                       (let neighbor_z_sum = convolve2d g z kernel;
                            num = np_sum_masked g msk (\<lambda>r c. z r c * neighbor_z_sum r c)
                        in Some ((of_nat N / of_int W) * (num / denom))))))"

subsection \<open>The metric in the words of the specification\<close>














text \<open>Small grids: a row \<open>[1, -1]\<close>, a 2 by 2 grid with an empty cell, and two cells apart.\<close>

definition grid_pair :: grid_matrix where
  "grid_pair = \<lparr>rows = 1, cols = 2, cell = (\<lambda>r c. if c = 0 then Some 1 else Some (- 1))\<rparr>"

definition grid_square :: grid_matrix where
  "grid_square = \<lparr>rows = 2, cols = 2,
     cell = (\<lambda>r c. if r = 0 \<and> c = 0 then Some 1 else if r = 1 \<and> c = 1 then None
                    else Some (- 1))\<rparr>"



section \<open>Properties of the reconstruction cache\<close>

lemma cache_inv_restore:
  assumes "cache_inv pop s" and "attrs a = pop (uid a)"
  shows "cache_inv pop (snd (restore_agent (save a) s))"
proof (cases "agent_cache s (uid a)")
  case None
  with assms show ?thesis
    by (auto simp: cache_inv_def restore_agent_def save_def new_agent_def uid_def attrs_def
        Let_def less_Suc_eq)
next
  case (Some p)
  with assms show ?thesis
    by (auto simp: cache_inv_def restore_agent_def save_def uid_def attrs_def)
qed

lemma reachable_cache_inv: "reachable pop s \<Longrightarrow> cache_inv pop s"
proof (induction rule: reachable.induct)
  case (init s)
  then show ?case by (simp add: cache_inv_def)
next
  case (restore s a)
  then show ?case by (simp add: cache_inv_restore)
next
  case (set_happy s p b)
  then show ?case by (auto simp: cache_inv_def uid_def attrs_def)
qed


text \<open>
  C10. When the record's identity is already in the cache, \<open>restore_agent\<close> returns the cached
  object and assigns only its \<open>happy\<close> flag: type, threshold, always-happy flag and identity
  of that object keep their values whatever the record carries, every other object, the cache
  and the allocation pointer are untouched.
\<close>

theorem restore_agent_cached_frame:
  assumes "agent_cache s (fst agent_data) = Some p"
  shows "fst (restore_agent agent_data s) = p
       \<and> heap (snd (restore_agent agent_data s)) p
           = (heap s p)\<lparr>happy := fst (snd (snd (snd agent_data)))\<rparr>
       \<and> agent_type (heap (snd (restore_agent agent_data s)) p) = agent_type (heap s p)
       \<and> threshold (heap (snd (restore_agent agent_data s)) p) = threshold (heap s p)
       \<and> always_happy (heap (snd (restore_agent agent_data s)) p) = always_happy (heap s p)
       \<and> uid (heap (snd (restore_agent agent_data s)) p) = uid (heap s p)
       \<and> (\<forall>q. q \<noteq> p \<longrightarrow> heap (snd (restore_agent agent_data s)) q = heap s q)
       \<and> agent_cache (snd (restore_agent agent_data s)) = agent_cache s
       \<and> nxt (snd (restore_agent agent_data s)) = nxt s"
  using assms by (cases agent_data) (simp add: restore_agent_def uid_def)

theorem restore_agent_cached_frame_witness:
  "agent_cache store1 (fst ((3, 0, 1), 0, 3/4, False, Some True)) = Some 0
   \<and> fst (restore_agent ((3, 0, 1), 0, 3/4, False, Some True) store1) = 0
   \<and> agent_type (heap (snd (restore_agent ((3, 0, 1), 0, 3/4, False, Some True) store1)) 0) = 1
   \<and> threshold (heap (snd (restore_agent ((3, 0, 1), 0, 3/4, False, Some True) store1)) 0) = 1/2
   \<and> always_happy (heap (snd (restore_agent ((3, 0, 1), 0, 3/4, False, Some True) store1)) 0)
       = False
   \<and> happy (heap (snd (restore_agent ((3, 0, 1), 0, 3/4, False, Some True) store1)) 0) = False"
proof -
  have c: "agent_cache store1
             (fst ((3::nat, 0::nat, 1::nat), 0::int, 3/4::rat, False, Some True)) = Some 0"
    by (simp add: store1_def store0_def agent0_def restore_agent_def save_def uid_def
        AGENT_TYPE_def)
  have h: "heap store1 0 = agent0"
    by (simp add: store1_def store0_def agent0_def restore_agent_def save_def uid_def
        AGENT_TYPE_def new_agent_def)
  show ?thesis
    using c h restore_agent_cached_frame [OF c] by (simp add: agent0_def)
qed

text \<open>
  C7. In every cache state of a run, restoring the record of an agent of the population gives
  an object equal to the agent in every field (identity, type, threshold, happy flag,
  always-happy flag), and restoring the same record again returns the same address and leaves
  the store as it is: nothing is allocated a second time.
\<close>

theorem restore_save_roundtrip:
  assumes "reachable pop s" and "attrs a = pop (uid a)"
  shows "heap (snd (restore_agent (save a) s)) (fst (restore_agent (save a) s)) = a
       \<and> restore_agent (save a) (snd (restore_agent (save a) s))
           = (fst (restore_agent (save a) s), snd (restore_agent (save a) s))"
proof -
  have inv: "cache_inv pop s" using assms(1) by (rule reachable_cache_inv)
  show ?thesis
  proof (cases "agent_cache s (uid a)")
    case None
    then show ?thesis
      by (simp add: restore_agent_def save_def new_agent_def uid_def Let_def)
  next
    case (Some p)
    from inv Some have "uid (heap s p) = uid a \<and> attrs (heap s p) = pop (uid a)"
      unfolding cache_inv_def by blast
    with assms(2) have "uid (heap s p) = uid a" "attrs (heap s p) = attrs a"
      by simp_all
    then have "(heap s p)\<lparr>happy := happy a\<rparr> = a"
      by (simp add: uid_def attrs_def)
    with Some show ?thesis
      by (simp add: restore_agent_def save_def)
  qed
qed

theorem restore_save_roundtrip_witness:
  "reachable (\<lambda>_. (1, 1/2, False)) store1
   \<and> attrs (agent0\<lparr>happy := False\<rparr>) = (\<lambda>_. (1, 1/2, False)) (uid (agent0\<lparr>happy := False\<rparr>))
   \<and> heap (snd (restore_agent (save (agent0\<lparr>happy := False\<rparr>)) store1))
          (fst (restore_agent (save (agent0\<lparr>happy := False\<rparr>)) store1))
       = agent0\<lparr>happy := False\<rparr>
   \<and> fst (restore_agent (save (agent0\<lparr>happy := False\<rparr>)) store1) = 0
   \<and> nxt (snd (restore_agent (save (agent0\<lparr>happy := False\<rparr>)) store1)) = 1"
proof -
  have r0: "reachable (\<lambda>_. (1, 1/2, False)) store0"
    by (rule reachable.init) (simp add: store0_def)
  have a0: "attrs agent0 = (\<lambda>_. (1, 1/2, False)) (uid agent0)"
    by (simp add: attrs_def agent0_def)
  have r: "reachable (\<lambda>_. (1, 1/2, False)) store1"
    unfolding store1_def using r0 a0 by (rule reachable.restore)
  have a: "attrs (agent0\<lparr>happy := False\<rparr>)
             = (\<lambda>_. (1, 1/2, False)) (uid (agent0\<lparr>happy := False\<rparr>))"
    by (simp add: attrs_def agent0_def)
  have f: "fst (restore_agent (save (agent0\<lparr>happy := False\<rparr>)) store1) = 0
         \<and> nxt (snd (restore_agent (save (agent0\<lparr>happy := False\<rparr>)) store1)) = 1"
    by (simp add: store1_def store0_def agent0_def restore_agent_def save_def uid_def Let_def)
  show ?thesis
    using r a f restore_save_roundtrip [OF r a] by simp
qed

section \<open>Properties of the neighbourhood offsets\<close>

lemma zip_fst_snd: "zip (map fst ps) (map snd ps) = ps"
  by (induction ps) auto

lemma set_von_neumann: "set (get_von_neumann_offsets r) = manhattan_ball r"
  by (auto simp: get_von_neumann_offsets_def manhattan_ball_def py_range_def)

lemma set_moore: "set (get_moore_offsets r) = chebyshev_ball r"
  by (auto simp: get_moore_offsets_def chebyshev_ball_def py_range_def)

lemma von_neumann_1: "get_von_neumann_offsets 1 = [(-1, 0), (0, -1), (0, 1), (1, 0)]"
  by code_simp

lemma moore_1:
  "get_moore_offsets 1 = [(-1, -1), (-1, 0), (-1, 1), (0, -1), (0, 1), (1, -1), (1, 0), (1, 1)]"
  by code_simp

lemma offsets_4: "set (offset_pairs (get_neighborhood_offsets ''4'')) = manhattan_ball 1"
  unfolding set_von_neumann [symmetric] von_neumann_1
  by (auto simp: get_neighborhood_offsets_def offset_pairs_def)

lemma offsets_8: "set (offset_pairs (get_neighborhood_offsets ''8'')) = chebyshev_ball 1"
  unfolding set_moore [symmetric] moore_1
  by (auto simp: get_neighborhood_offsets_def offset_pairs_def)

lemma offsets_12: "set (offset_pairs (get_neighborhood_offsets ''12'')) = manhattan_ball 2"
  by (auto simp: get_neighborhood_offsets_def offset_pairs_def zip_fst_snd Let_def
      manhattan_ball_def py_range_def simp del: upto_rec_numeral)

lemma offsets_24: "set (offset_pairs (get_neighborhood_offsets ''24'')) = chebyshev_ball 2"
  by (auto simp: get_neighborhood_offsets_def offset_pairs_def zip_fst_snd Let_def
      chebyshev_ball_def py_range_def simp del: upto_rec_numeral)

lemma offsets_48: "set (offset_pairs (get_neighborhood_offsets ''48'')) = chebyshev_ball 3"
  by (auto simp: get_neighborhood_offsets_def offset_pairs_def zip_fst_snd Let_def
      chebyshev_ball_def py_range_def simp del: upto_rec_numeral)

lemma offsets_80: "set (offset_pairs (get_neighborhood_offsets ''80'')) = chebyshev_ball 4"
  by (auto simp: get_neighborhood_offsets_def offset_pairs_def zip_fst_snd Let_def
      chebyshev_ball_def py_range_def simp del: upto_rec_numeral)

lemma offsets_default:
  "name \<notin> {''4'', ''12'', ''24'', ''48'', ''80''} \<Longrightarrow>
   get_neighborhood_offsets name = ([-1, 0, 1, -1, 1, -1, 0, 1], [1, 1, 1, 0, 0, -1, -1, -1])"
  by (simp add: get_neighborhood_offsets_def)

lemma zero_not_in_balls: "(0, 0) \<notin> manhattan_ball r" "(0, 0) \<notin> chebyshev_ball r"
  by (simp_all add: manhattan_ball_def chebyshev_ball_def)

lemma moore_2_corner: "(2, 2) \<in> set (get_moore_offsets 2)"
  unfolding set_moore by (simp add: chebyshev_ball_def)

text \<open>
  C6 as stated fails in the dispatcher of lec04 for the recognised kind \<open>EXTENDED\<close> and the
  positive radius 1: it returns the Moore offsets of radius 2, among them \<open>(2, 2)\<close>, which
  is not at Chebyshev distance in \<open>(0, 1]\<close>.
\<close>

theorem extended_radius_counterexample:
  "get_neighborhood_offsets_lec04 (Kind EXTENDED) 1 = Inr (get_moore_offsets 2)
   \<and> (2, 2) \<in> set (get_moore_offsets 2)
   \<and> (2, 2) \<notin> chebyshev_ball 1"
  by (simp add: get_neighborhood_offsets_lec04_def get_extended_offsets_def moore_2_corner
      chebyshev_ball_def)

text \<open>
  C6, amended. Every neighbourhood name of lecture\_03 gives exactly the offsets within its
  distance: Manhattan distance in \<open>(0, 1]\<close> for \<open>"4"\<close> and \<open>(0, 2]\<close> for \<open>"12"\<close>, Chebyshev
  distance in \<open>(0, 1]\<close>, \<open>(0, 2]\<close>, \<open>(0, 3]\<close>, \<open>(0, 4]\<close> for \<open>"8"\<close>, \<open>"24"\<close>, \<open>"48"\<close>,
  \<open>"80"\<close>. In lec04, for every radius \<open>r\<close>, \<open>get_von_neumann_offsets r\<close> and the kind
  \<open>VON_NEUMANN\<close> give exactly the offsets at Manhattan distance in \<open>(0, r]\<close>,
  \<open>get_moore_offsets r\<close> and the kind \<open>MOORE\<close> exactly those at Chebyshev distance in
  \<open>(0, r]\<close>, and the kind \<open>EXTENDED\<close> exactly those at Chebyshev distance in
  \<open>(0, max r 2]\<close>: the radius itself when it is greater than 1, and 2 otherwise. The zero
  offset is in none of them.
\<close>

theorem offsets_exact:
  "set (offset_pairs (get_neighborhood_offsets ''4'')) = manhattan_ball 1
   \<and> set (offset_pairs (get_neighborhood_offsets ''12'')) = manhattan_ball 2
   \<and> set (offset_pairs (get_neighborhood_offsets ''8'')) = chebyshev_ball 1
   \<and> set (offset_pairs (get_neighborhood_offsets ''24'')) = chebyshev_ball 2
   \<and> set (offset_pairs (get_neighborhood_offsets ''48'')) = chebyshev_ball 3
   \<and> set (offset_pairs (get_neighborhood_offsets ''80'')) = chebyshev_ball 4
   \<and> set (get_von_neumann_offsets r) = manhattan_ball r
   \<and> set (get_moore_offsets r) = chebyshev_ball r
   \<and> (0, 0) \<notin> manhattan_ball r \<and> (0, 0) \<notin> chebyshev_ball r
   \<and> get_neighborhood_offsets_lec04 (Kind VON_NEUMANN) r = Inr (get_von_neumann_offsets r)
   \<and> get_neighborhood_offsets_lec04 (Kind MOORE) r = Inr (get_moore_offsets r)
   \<and> get_neighborhood_offsets_lec04 (Kind EXTENDED) r = Inr (get_moore_offsets (max r 2))
   \<and> set (get_moore_offsets (max r 2)) = chebyshev_ball (max r 2)"
proof -
  have d: "get_neighborhood_offsets_lec04 (Kind VON_NEUMANN) r = Inr (get_von_neumann_offsets r)"
    "get_neighborhood_offsets_lec04 (Kind MOORE) r = Inr (get_moore_offsets r)"
    by (simp_all add: get_neighborhood_offsets_lec04_def)
  have "(if 1 < r then r else 2) = max r 2" by simp
  then have e: "get_neighborhood_offsets_lec04 (Kind EXTENDED) r
                  = Inr (get_moore_offsets (max r 2))"
    by (simp add: get_neighborhood_offsets_lec04_def get_extended_offsets_def)
  show ?thesis
    by (simp only: offsets_4 offsets_8 offsets_12 offsets_24 offsets_48 offsets_80
        set_von_neumann set_moore zero_not_in_balls d e simp_thms)
qed

theorem offsets_exact_witness:
  "set (get_von_neumann_offsets 1) = manhattan_ball 1
   \<and> get_von_neumann_offsets 1 = [(-1, 0), (0, -1), (0, 1), (1, 0)]
   \<and> set (offset_pairs (get_neighborhood_offsets ''4'')) = set (get_von_neumann_offsets 1)
   \<and> get_neighborhood_offsets_lec04 (Kind MOORE) 1
       = Inr [(-1, -1), (-1, 0), (-1, 1), (0, -1), (0, 1), (1, -1), (1, 0), (1, 1)]
   \<and> get_neighborhood_offsets_lec04 (Kind EXTENDED) 1 = Inr (get_moore_offsets 2)
   \<and> get_neighborhood_offsets_lec04 (Kind EXTENDED) 3 = Inr (get_moore_offsets 3)"
  using offsets_exact [of 1] offsets_exact [of 3] von_neumann_1 moore_1 by simp

lemma empty_balls: "r \<le> 0 \<Longrightarrow> manhattan_ball r = {}" "r \<le> 0 \<Longrightarrow> chebyshev_ball r = {}"
  by (auto simp: manhattan_ball_def chebyshev_ball_def)

text \<open>
  C4 as stated fails: an unrecognised name gets the 8-neighbour offsets in lecture\_03, and
  lec04 returns a list (an empty one) for radius 0 and for a negative radius.
\<close>

theorem offsets_errors_counterexample:
  "get_neighborhood_offsets ''hexagonal''
     = ([-1, 0, 1, -1, 1, -1, 0, 1], [1, 1, 1, 0, 0, -1, -1, -1])
   \<and> get_neighborhood_offsets_lec04 (Kind MOORE) 0 = Inr []
   \<and> get_neighborhood_offsets_lec04 (Kind VON_NEUMANN) (- 1) = Inr []"
  by (simp add: get_neighborhood_offsets_def get_neighborhood_offsets_lec04_def
      get_moore_offsets_def get_von_neumann_offsets_def py_range_def)

text \<open>
  C4, amended. Neither function validates the radius and neither has the errors
  \<open>InvalidTopology\<close> or \<open>InvalidRadius\<close>. In lecture\_03 every name other than
  \<open>"4"\<close>, \<open>"12"\<close>, \<open>"24"\<close>, \<open>"48"\<close>, \<open>"80"\<close> falls back to the 8-neighbour Moore offsets
  and there is no radius argument. In lec04 an argument that is none of the three
  neighbourhood types raises \<open>ValueError\<close> whatever the radius; for the three types every
  radius returns a list: with radius \<open>\<le> 0\<close> the von Neumann and Moore lists are empty and
  the extended kind uses radius 2.
\<close>

theorem offsets_no_validation:
  "(name \<notin> {''4'', ''12'', ''24'', ''48'', ''80''} \<longrightarrow>
      get_neighborhood_offsets name
        = ([-1, 0, 1, -1, 1, -1, 0, 1], [1, 1, 1, 0, 0, -1, -1, -1]))
   \<and> get_neighborhood_offsets_lec04 NotAKind radius = Inl ValueError
   \<and> (\<exists>offs. get_neighborhood_offsets_lec04 (Kind k) radius = Inr offs)
   \<and> (radius \<le> 0 \<longrightarrow>
        get_neighborhood_offsets_lec04 (Kind VON_NEUMANN) radius = Inr []
      \<and> get_neighborhood_offsets_lec04 (Kind MOORE) radius = Inr []
      \<and> get_neighborhood_offsets_lec04 (Kind EXTENDED) radius = Inr (get_moore_offsets 2))"
proof -
  have e: "radius \<le> 0 \<Longrightarrow> get_von_neumann_offsets radius = []"
          "radius \<le> 0 \<Longrightarrow> get_moore_offsets radius = []"
    using set_von_neumann [of radius] set_moore [of radius] empty_balls [of radius] by simp_all
  have k: "\<exists>offs. get_neighborhood_offsets_lec04 (Kind k) radius = Inr offs"
    by (cases k) (simp_all add: get_neighborhood_offsets_lec04_def)
  show ?thesis
    using e k
    by (simp add: offsets_default get_neighborhood_offsets_lec04_def get_extended_offsets_def)
qed

theorem offsets_no_validation_witness:
  "''7'' \<notin> {''4'', ''12'', ''24'', ''48'', ''80''} \<and> (0::int) \<le> 0
   \<and> get_neighborhood_offsets ''7'' = ([-1, 0, 1, -1, 1, -1, 0, 1], [1, 1, 1, 0, 0, -1, -1, -1])
   \<and> get_neighborhood_offsets_lec04 NotAKind 0 = Inl ValueError
   \<and> get_neighborhood_offsets_lec04 (Kind MOORE) 0 = Inr []"
  using offsets_no_validation [of "''7''" 0 MOORE] by simp

section \<open>Properties of the neighbour lookup and the agent step\<close>

lemma find_zip_aux:
  assumes "length ms = length ns"
  shows "map (\<lambda>(a, b). (a, b, 0::int))
           (zip (mask_index (mask_index (map (\<lambda>m. m + x) ms) (map (\<lambda>v. x0 \<le> v \<and> v < x1) (map (\<lambda>m. m + x) ms)))
                   (map (\<lambda>v. y0 \<le> v \<and> v < y1)
                      (mask_index (map (\<lambda>n. n + y) ns) (map (\<lambda>v. x0 \<le> v \<and> v < x1) (map (\<lambda>m. m + x) ms)))))
                (mask_index (mask_index (map (\<lambda>n. n + y) ns) (map (\<lambda>v. x0 \<le> v \<and> v < x1) (map (\<lambda>m. m + x) ms)))
                   (map (\<lambda>v. y0 \<le> v \<and> v < y1)
                      (mask_index (map (\<lambda>n. n + y) ns) (map (\<lambda>v. x0 \<le> v \<and> v < x1) (map (\<lambda>m. m + x) ms))))))
       = map (\<lambda>(dx, dy). (dx + x, dy + y, 0))
           (filter (\<lambda>(dx, dy). x0 \<le> dx + x \<and> dx + x < x1 \<and> y0 \<le> dy + y \<and> dy + y < y1)
              (zip ms ns))"
  using assms
  by (induction ms ns rule: list_induct2) (auto simp: mask_index_def)

lemma find_eq:
  assumes "length (mo f) = length (no f)"
  shows "GridNghFinder_find f x y
       = map (\<lambda>(dx, dy). (dx + x, dy + y, 0))
           (filter (\<lambda>(dx, dy). xmin f \<le> dx + x \<and> dx + x < xmax f
                              \<and> ymin f \<le> dy + y \<and> dy + y < ymax f)
              (zip (mo f) (no f)))"
  unfolding GridNghFinder_find_def Let_def using assms by (rule find_zip_aux)

lemma fold_count_neighbor:
  "fold (count_neighbor self) ns (s, t)
     = (s + length (filter (\<lambda>n. agent_type n = agent_type self)
                     (filter (\<lambda>n. uid n \<noteq> uid self) ns)),
        t + length (filter (\<lambda>n. uid n \<noteq> uid self) ns))"
  by (induction ns arbitrary: s t) (auto simp: count_neighbor_def)

lemma grid_move_agents: "agents (grid_move u d m) = agents m"
  by (simp add: grid_move_def Let_def)

lemma move_attempts_agents: "agents (move_attempts n u m) = agents m"
  by (induction n arbitrary: m) (simp_all add: Let_def grid_move_agents)

lemma move_attempts_all_occupied:
  "(\<And>k. k < n \<Longrightarrow> cells m (rng_pts m (rng_pos m + k)) \<noteq> [])
     \<Longrightarrow> move_attempts n u m = m\<lparr>rng_pos := rng_pos m + n\<rparr>"
proof (induction n arbitrary: m)
  case 0
  then show ?case by simp
next
  case (Suc n)
  let ?m1 = "m\<lparr>rng_pos := Suc (rng_pos m)\<rparr>"
  from Suc.prems [of 0] have occ: "cells m (rng_pts m (rng_pos m)) \<noteq> []" by simp
  have "move_attempts n u ?m1 = ?m1\<lparr>rng_pos := rng_pos ?m1 + n\<rparr>"
  proof (rule Suc.IH)
    fix k assume "k < n"
    then have "Suc k < Suc n" by simp
    from Suc.prems [OF this] show "cells ?m1 (rng_pts ?m1 (rng_pos ?m1 + k)) \<noteq> []" by simp
  qed
  with occ show ?case by (simp add: Let_def)
qed

lemma move_attempts_first_vacant:
  "k < n \<Longrightarrow> cells m (rng_pts m (rng_pos m + k)) = []
     \<Longrightarrow> (\<And>j. j < k \<Longrightarrow> cells m (rng_pts m (rng_pos m + j)) \<noteq> [])
     \<Longrightarrow> move_attempts n u m
           = grid_move u (rng_pts m (rng_pos m + k)) (m\<lparr>rng_pos := rng_pos m + k + 1\<rparr>)"
proof (induction n arbitrary: m k)
  case 0
  then show ?case by simp
next
  case (Suc n)
  let ?m1 = "m\<lparr>rng_pos := Suc (rng_pos m)\<rparr>"
  show ?case
  proof (cases k)
    case 0
    with Suc.prems(2) show ?thesis by (simp add: Let_def)
  next
    case (Suc k')
    with Suc.prems(3) [of 0] have occ: "cells m (rng_pts m (rng_pos m)) \<noteq> []" by simp
    have "move_attempts n u ?m1
            = grid_move u (rng_pts ?m1 (rng_pos ?m1 + k')) (?m1\<lparr>rng_pos := rng_pos ?m1 + k' + 1\<rparr>)"
    proof (rule Suc.IH)
      show "k' < n" using Suc.prems(1) Suc by simp
      show "cells ?m1 (rng_pts ?m1 (rng_pos ?m1 + k')) = []" using Suc.prems(2) Suc by simp
      fix j assume "j < k'"
      then have "Suc j < k" using Suc by simp
      from Suc.prems(3) [OF this] show "cells ?m1 (rng_pts ?m1 (rng_pos ?m1 + j)) \<noteq> []" by simp
    qed
    with occ Suc show ?thesis by (simp add: Let_def)
  qed
qed

text \<open>
  C5 as stated fails in the Mesa model of lec04: on a grid with a \<open>width\<close> attribute (5 by 5
  here) the lookup around \<open>(0, 0)\<close> wraps, and visits \<open>(4, 4)\<close>, which is not the centre
  plus an offset.
\<close>

theorem neighbor_wrap_counterexample:
  "(4, 4) \<in> set (neighbor_coords_lec04 (Some (5, 5)) (get_moore_offsets 1) (0, 0))
   \<and> (4, 4) \<notin> (\<lambda>(dx, dy). (0 + dx, 0 + dy)) ` set (get_moore_offsets 1)
   \<and> neighbor_coords_lec04 (Some (5, 5)) (get_moore_offsets 1) (0, 0)
       = [(4, 4), (4, 0), (4, 1), (0, 4), (0, 1), (1, 4), (1, 0), (1, 1)]"
  by (simp add: neighbor_coords_lec04_def moore_1)

text \<open>
  C5, amended. In the distributed engine (\<open>GridNghFinder.find\<close>, with offset arrays of equal
  length as the constructor's caller passes them) the lookup adds each offset to the centre
  and keeps exactly the coordinates inside \<open>[xmin, xmax) \<times> [ymin, ymax)\<close>, in the order of
  the offsets: nothing is wrapped, every returned coordinate is the centre plus an offset and
  lies within the grid. (The Mesa model of lec04 instead reduces the coordinates modulo the
  grid's width and height when the grid has a \<open>width\<close> attribute.)
\<close>

theorem find_sticky:
  assumes "length (mo f) = length (no f)"
  shows "GridNghFinder_find f x y
           = map (\<lambda>(dx, dy). (dx + x, dy + y, 0))
               (filter (\<lambda>(dx, dy). in_bounds f (dx + x, dy + y)) (zip (mo f) (no f)))
       \<and> set (GridNghFinder_find f x y)
           = {(dx + x, dy + y, 0) | dx dy.
                (dx, dy) \<in> set (zip (mo f) (no f)) \<and> in_bounds f (dx + x, dy + y)}
       \<and> neighbor_coords_lec04 (Some (w, h)) offsets pos
           = map (\<lambda>(dx, dy). ((fst pos + dx) mod w, (snd pos + dy) mod h)) offsets"
proof -
  have eq: "GridNghFinder_find f x y
           = map (\<lambda>(dx, dy). (dx + x, dy + y, 0))
               (filter (\<lambda>(dx, dy). in_bounds f (dx + x, dy + y)) (zip (mo f) (no f)))"
    using find_eq [OF assms, of x y] by (simp add: in_bounds_def)
  have "set (map (\<lambda>(dx, dy). (dx + x, dy + y, 0::int))
               (filter (\<lambda>(dx, dy). in_bounds f (dx + x, dy + y)) (zip (mo f) (no f))))
        = {(dx + x, dy + y, 0) | dx dy.
                (dx, dy) \<in> set (zip (mo f) (no f)) \<and> in_bounds f (dx + x, dy + y)}"
    by (auto simp: image_iff)
  moreover have "neighbor_coords_lec04 (Some (w, h)) offsets pos
           = map (\<lambda>(dx, dy). ((fst pos + dx) mod w, (snd pos + dy) mod h)) offsets"
    by (simp add: neighbor_coords_lec04_def Let_def)
  ultimately show ?thesis using eq by simp
qed

theorem find_sticky_witness:
  "length (mo (ngh_finder scene)) = length (no (ngh_finder scene))
   \<and> GridNghFinder_find (ngh_finder scene) 0 0 = [(0, 1, 0), (1, 1, 0), (1, 0, 0)]"
proof -
  have l: "length (mo (ngh_finder scene)) = length (no (ngh_finder scene))"
    by (simp add: scene_def new_GridNghFinder_def get_neighborhood_offsets_def)
  have "map (\<lambda>(dx, dy). (dx + 0, dy + 0, 0))
          (filter (\<lambda>(dx, dy). in_bounds (ngh_finder scene) (dx + 0, dy + 0))
             (zip (mo (ngh_finder scene)) (no (ngh_finder scene))))
        = [(0, 1, 0), (1, 1, 0), (1, 0, 0::int)]"
    by (simp add: scene_def new_GridNghFinder_def get_neighborhood_offsets_def in_bounds_def)
  with l find_sticky [OF l, of 0 0] show ?thesis by simp
qed

text \<open>
  C2 as stated fails in the Mesa model of lec04: with no neighbours
  \<open>ThresholdUtility.calculate\<close> returns 0 and \<open>assign_state\<close> makes the agent unhappy.
\<close>

theorem vacuous_satisfaction_counterexample:
  "assign_state_happy (3 / 10) 1 [] = False"
  by (simp add: assign_state_happy_def ThresholdUtility_calculate_def)

text \<open>
  C2, amended. In the distributed engine (\<open>SchellingAgent.step\<close>) an agent that is on the
  grid and not always-happy ends its step with \<open>happy\<close> true when it counted no neighbour
  (occupants of the neighbour cells other than itself), and otherwise with
  \<open>happy = (similar / total \<ge> threshold)\<close>. In the Mesa model of lec04
  (\<open>ThresholdUtility\<close> and \<open>assign_state\<close>) an agent with no neighbour is unhappy, and
  otherwise \<open>happy = (similar / total \<ge> threshold)\<close> as well.
\<close>

theorem satisfaction_rule:
  assumes "location m u = Some pt" and "\<not> always_happy (agents m u)"
  shows "happy (agents (step u m) u)
           = (let others = filter (\<lambda>n. uid n \<noteq> uid (agents m u)) (neighbors_of m pt);
                  total = length others;
                  similar = length (filter (\<lambda>n. agent_type n = agent_type (agents m u)) others)
              in if total = 0 then True
                 else of_nat similar / of_nat total \<ge> threshold (agents m u))
       \<and> assign_state_happy thr ty nts
           = (if length nts = 0 then False
              else of_nat (length (filter (\<lambda>t. t = ty) nts)) / of_nat (length nts) \<ge> thr)"
proof -
  have "assign_state_happy thr ty nts
           = (if length nts = 0 then False
              else of_nat (length (filter (\<lambda>t. t = ty) nts)) / of_nat (length nts) \<ge> thr)"
    by (simp add: assign_state_happy_def ThresholdUtility_calculate_def Let_def)
  moreover have "happy (agents (step u m) u)
           = (let others = filter (\<lambda>n. uid n \<noteq> uid (agents m u)) (neighbors_of m pt);
                  total = length others;
                  similar = length (filter (\<lambda>n. agent_type n = agent_type (agents m u)) others)
              in if total = 0 then True
                 else of_nat similar / of_nat total \<ge> threshold (agents m u))"
    using assms
    by (simp add: step_def Let_def fold_count_neighbor move_def move_attempts_agents)
  ultimately show ?thesis by simp
qed

theorem satisfaction_rule_witness:
  "location scene (0, 0, 0) = Some (0, 0) \<and> \<not> always_happy (agents scene (0, 0, 0))
   \<and> happy (agents (step (0, 0, 0) scene) (0, 0, 0)) = False
   \<and> neighbors_of scene (0, 0) = [new_agent 1 0 1 1 False]"
proof -
  have l: "location scene (0, 0, 0) = Some (0, 0)" by (simp add: scene_def)
  have a: "\<not> always_happy (agents scene (0, 0, 0))" by (simp add: scene_def new_agent_def)
  have n: "neighbors_of scene (0, 0) = [new_agent 1 0 1 1 False]"
    by (simp add: neighbors_of_def scene_def new_GridNghFinder_def get_neighborhood_offsets_def
        GridNghFinder_find_def mask_index_def)
  have s: "agents scene (0, 0, 0) = new_agent 0 0 0 1 False" by (simp add: scene_def)
  show ?thesis
    using l a n satisfaction_rule [OF l a, of 0 0 "[]"]
    by (simp add: s new_agent_def uid_def Let_def)
qed

lemma grid_move_rng: "rng_pos (grid_move u d m) = rng_pos m"
  by (simp add: grid_move_def Let_def)

lemma grid_move_vacant_location:
  "cells m d = [] \<Longrightarrow> location (grid_move u d m) u = Some d"
  by (simp add: grid_move_def Let_def)

lemma move_attempts_rng_le: "rng_pos (move_attempts n u m) \<le> rng_pos m + n"
proof (induction n arbitrary: m)
  case 0
  then show ?case by simp
next
  case (Suc n)
  have "rng_pos (move_attempts n u (m\<lparr>rng_pos := Suc (rng_pos m)\<rparr>)) \<le> Suc (rng_pos m) + n"
    using Suc.IH [of "m\<lparr>rng_pos := Suc (rng_pos m)\<rparr>"] by simp
  then show ?case by (simp add: Let_def grid_move_rng)
qed

text \<open>
  C8. \<open>move\<close> draws points from the generator until one is vacant, at most 100 times. When
  the first 100 points drawn are all occupied, the agent keeps its location and the grid is
  as before: the result is the same model with 100 points consumed, and no error exists in
  the result type. When the point of draw \<open>k < 100\<close> is the first vacant one, the agent is
  moved there, to a cell that was vacant, after \<open>k + 1\<close> draws. \<open>step\<close> calls \<open>move\<close> exactly
  for a located, not always-happy agent that it found unhappy. (That the points are uniformly
  distributed is a property of the generator, which is an arbitrary sequence here.)
\<close>

theorem move_bounded_retry:
  "((\<forall>k<100. cells m (rng_pts m (rng_pos m + k)) \<noteq> []) \<longrightarrow>
       move u m = m\<lparr>rng_pos := rng_pos m + 100\<rparr>
     \<and> location (move u m) u = location m u \<and> cells (move u m) = cells m)
   \<and> (k < 100 \<and> cells m (rng_pts m (rng_pos m + k)) = []
        \<and> (\<forall>j<k. cells m (rng_pts m (rng_pos m + j)) \<noteq> []) \<longrightarrow>
       move u m = grid_move u (rng_pts m (rng_pos m + k)) (m\<lparr>rng_pos := rng_pos m + k + 1\<rparr>)
     \<and> location (move u m) u = Some (rng_pts m (rng_pos m + k))
     \<and> rng_pos (move u m) = rng_pos m + k + 1)
   \<and> rng_pos (move u m) \<le> rng_pos m + 100
   \<and> (location m u = Some pt \<and> \<not> always_happy (agents m u) \<longrightarrow>
        step u m = (if happy (agents (step u m) u)
                    then m\<lparr>agents := (agents m)(u := (agents m u)\<lparr>happy := True\<rparr>)\<rparr>
                    else move u (m\<lparr>agents := (agents m)(u := (agents m u)\<lparr>happy := False\<rparr>)\<rparr>)))"
proof -
  have a: "(\<forall>k<100. cells m (rng_pts m (rng_pos m + k)) \<noteq> []) \<longrightarrow>
       move u m = m\<lparr>rng_pos := rng_pos m + 100\<rparr>
     \<and> location (move u m) u = location m u \<and> cells (move u m) = cells m"
  proof
    assume h: "\<forall>k<100. cells m (rng_pts m (rng_pos m + k)) \<noteq> []"
    have "move_attempts 100 u m = m\<lparr>rng_pos := rng_pos m + 100\<rparr>"
      by (rule move_attempts_all_occupied) (use h in blast)
    then show "move u m = m\<lparr>rng_pos := rng_pos m + 100\<rparr>
     \<and> location (move u m) u = location m u \<and> cells (move u m) = cells m"
      by (simp add: move_def)
  qed
  have b: "k < 100 \<and> cells m (rng_pts m (rng_pos m + k)) = []
        \<and> (\<forall>j<k. cells m (rng_pts m (rng_pos m + j)) \<noteq> []) \<longrightarrow>
       move u m = grid_move u (rng_pts m (rng_pos m + k)) (m\<lparr>rng_pos := rng_pos m + k + 1\<rparr>)
     \<and> location (move u m) u = Some (rng_pts m (rng_pos m + k))
     \<and> rng_pos (move u m) = rng_pos m + k + 1"
  proof
    assume h: "k < 100 \<and> cells m (rng_pts m (rng_pos m + k)) = []
        \<and> (\<forall>j<k. cells m (rng_pts m (rng_pos m + j)) \<noteq> [])"
    have "move_attempts 100 u m
            = grid_move u (rng_pts m (rng_pos m + k)) (m\<lparr>rng_pos := rng_pos m + k + 1\<rparr>)"
      by (rule move_attempts_first_vacant) (use h in blast)+
    with h show "move u m = grid_move u (rng_pts m (rng_pos m + k)) (m\<lparr>rng_pos := rng_pos m + k + 1\<rparr>)
     \<and> location (move u m) u = Some (rng_pts m (rng_pos m + k))
     \<and> rng_pos (move u m) = rng_pos m + k + 1"
      by (simp add: move_def grid_move_rng grid_move_vacant_location)
  qed
  have c: "rng_pos (move u m) \<le> rng_pos m + 100"
    unfolding move_def by (rule move_attempts_rng_le)
  have d: "location m u = Some pt \<and> \<not> always_happy (agents m u) \<longrightarrow>
        step u m = (if happy (agents (step u m) u)
                    then m\<lparr>agents := (agents m)(u := (agents m u)\<lparr>happy := True\<rparr>)\<rparr>
                    else move u (m\<lparr>agents := (agents m)(u := (agents m u)\<lparr>happy := False\<rparr>)\<rparr>))"
    by (auto simp: step_def Let_def move_def move_attempts_agents split: prod.splits)
  from a b c d show ?thesis by blast
qed

theorem move_bounded_retry_witness:
  "move (0, 0, 0) scene_full = scene_full\<lparr>rng_pos := 100\<rparr>
   \<and> location (move (0, 0, 0) scene_full) (0, 0, 0) = Some (0, 0)
   \<and> (1::nat) < 100 \<and> cells scene (rng_pts scene (rng_pos scene + 1)) = []
   \<and> cells scene (rng_pts scene (rng_pos scene + 0)) \<noteq> []
   \<and> location (move (0, 0, 0) scene) (0, 0, 0) = Some (2, 2)
   \<and> rng_pos (move (0, 0, 0) scene) = 2"
proof -
  have f: "\<forall>k<100. cells scene_full (rng_pts scene_full (rng_pos scene_full + k)) \<noteq> []"
    by (simp add: scene_full_def scene_def)
  have v: "(1::nat) < 100 \<and> cells scene (rng_pts scene (rng_pos scene + 1)) = []
        \<and> (\<forall>j<1. cells scene (rng_pts scene (rng_pos scene + j)) \<noteq> [])"
    by (simp add: scene_def)
  have p: "rng_pos scene_full = 0" "rng_pos scene = 0" "location scene_full (0, 0, 0) = Some (0, 0)"
          "rng_pts scene (Suc 0) = (2, 2)"
    by (simp_all add: scene_full_def scene_def)
  from f move_bounded_retry [of scene_full "(0, 0, 0)" 0 "(0, 0)"]
  have A: "move (0, 0, 0) scene_full = scene_full\<lparr>rng_pos := rng_pos scene_full + 100\<rparr>
         \<and> location (move (0, 0, 0) scene_full) (0, 0, 0) = location scene_full (0, 0, 0)"
    by blast
  from v move_bounded_retry [of scene "(0, 0, 0)" 1 "(0, 0)"]
  have B: "location (move (0, 0, 0) scene) (0, 0, 0) = Some (rng_pts scene (rng_pos scene + 1))
         \<and> rng_pos (move (0, 0, 0) scene) = rng_pos scene + 1 + 1"
    by blast
  from A B f v show ?thesis by (simp add: p)
qed

section \<open>Properties of the scheduler\<close>

declare execute.simps [simp del]

lemma execute_stopped: "\<not> go r \<Longrightarrow> execute stop_at world r = r"
  by (simp add: execute.simps)

lemma execute_result:
  "go r \<Longrightarrow>
   \<not> go (execute stop_at world r)
   \<and> set (steps (execute stop_at world r))
       = set (steps r) \<union>
         {t. tick r < t \<and> t \<le> stop_at \<and> (\<forall>s. tick r < s \<and> s < t \<longrightarrow> total_unhappy (world s) \<noteq> 0)}"
proof (induction stop_at world r rule: execute.induct)
  case (1 stop_at world r)
  show ?case
  proof (cases "stop_at < tick r + 1")
    case True
    with "1.prems" have "execute stop_at world r = stop r"
      by (subst execute.simps) simp
    with True show ?thesis by (auto simp: stop_def)
  next
    case False
    define r1 where "r1 = r\<lparr>tick := tick r + 1, steps := steps r @ [tick r + 1]\<rparr>"
    define r2 where "r2 = Model_step_stop (world (tick r1)) r1"
    define r3 where "r3 = (if tick r1 = stop_at then stop r2 else r2)"
    have ex: "execute stop_at world r = execute stop_at world r3"
      using "1.prems" False by (subst execute.simps) (simp add: r1_def r2_def r3_def Let_def)
    have t3: "tick r3 = tick r + 1" "steps r3 = steps r @ [tick r + 1]"
      by (simp_all add: r3_def r2_def r1_def Model_step_stop_def stop_def)
    have g3: "go r3 \<longleftrightarrow> total_unhappy (world (tick r + 1)) \<noteq> 0 \<and> tick r + 1 \<noteq> stop_at"
      using "1.prems" by (auto simp: r3_def r2_def r1_def Model_step_stop_def stop_def)
    show ?thesis
    proof (cases "go r3")
      case True
      have IH: "\<not> go (execute stop_at world r3)
        \<and> set (steps (execute stop_at world r3))
           = set (steps r3) \<union>
             {t. tick r3 < t \<and> t \<le> stop_at
                 \<and> (\<forall>s. tick r3 < s \<and> s < t \<longrightarrow> total_unhappy (world s) \<noteq> 0)}"
        using "1.IH" [OF _ _ r1_def r2_def r3_def True] "1.prems" False by simp
      have "{t. tick r < t \<and> t \<le> stop_at \<and> (\<forall>s. tick r < s \<and> s < t \<longrightarrow> total_unhappy (world s) \<noteq> 0)}
          = insert (tick r + 1) {t. tick r + 1 < t \<and> t \<le> stop_at
                 \<and> (\<forall>s. tick r + 1 < s \<and> s < t \<longrightarrow> total_unhappy (world s) \<noteq> 0)}"
        (is "?A = insert _ ?B")
      proof (intro set_eqI iffI)
        fix t assume "t \<in> ?A"
        then have a: "tick r < t" "t \<le> stop_at"
          "\<forall>s. tick r < s \<and> s < t \<longrightarrow> total_unhappy (world s) \<noteq> 0" by auto
        show "t \<in> insert (tick r + 1) ?B"
        proof (cases "t = tick r + 1")
          case True then show ?thesis by simp
        next
          case False
          with a have "tick r + 1 < t" by simp
          with a show ?thesis by auto
        qed
      next
        fix t assume "t \<in> insert (tick r + 1) ?B"
        then consider "t = tick r + 1" | "t \<in> ?B" by auto
        then show "t \<in> ?A"
        proof cases
          case 1
          with False show ?thesis by auto
        next
          case 2
          then have b: "tick r + 1 < t" "t \<le> stop_at"
            "\<forall>s. tick r + 1 < s \<and> s < t \<longrightarrow> total_unhappy (world s) \<noteq> 0" by auto
          have "\<forall>s. tick r < s \<and> s < t \<longrightarrow> total_unhappy (world s) \<noteq> 0"
          proof (intro allI impI)
            fix s assume s: "tick r < s \<and> s < t"
            show "total_unhappy (world s) \<noteq> 0"
            proof (cases "s = tick r + 1")
              case True with g3 \<open>go r3\<close> show ?thesis by simp
            next
              case False with s b show ?thesis by simp
            qed
          qed
          with b show ?thesis by simp
        qed
      qed
      with IH ex t3 show ?thesis by auto
    next
      case F: False
      then have e3: "execute stop_at world r3 = r3" by (rule execute_stopped)
      have "{t. tick r < t \<and> t \<le> stop_at \<and> (\<forall>s. tick r < s \<and> s < t \<longrightarrow> total_unhappy (world s) \<noteq> 0)}
          = {tick r + 1}" (is "?A = _")
      proof (intro set_eqI iffI)
        fix t assume "t \<in> ?A"
        then have a: "tick r < t" "t \<le> stop_at"
          "\<forall>s. tick r < s \<and> s < t \<longrightarrow> total_unhappy (world s) \<noteq> 0" by auto
        have "\<not> tick r + 1 < t"
        proof
          assume lt: "tick r + 1 < t"
          with a have "total_unhappy (world (tick r + 1)) \<noteq> 0" by simp
          moreover from lt a have "tick r + 1 \<noteq> stop_at" by simp
          ultimately show False using g3 F by simp
        qed
        with a show "t \<in> {tick r + 1}" by simp
      next
        fix t assume "t \<in> {tick r + 1}"
        with False show "t \<in> ?A" by auto
      qed
      with ex e3 t3 F show ?thesis by auto
    qed
  qed
qed


lemma execute_steps_upto:
  "go r \<Longrightarrow>
   tick r \<le> tick (execute stop_at world r)
   \<and> steps (execute stop_at world r)
       = steps r @ [Suc (tick r)..<Suc (tick (execute stop_at world r))]"
proof (induction stop_at world r rule: execute.induct)
  case (1 stop_at world r)
  show ?case
  proof (cases "stop_at < tick r + 1")
    case True
    with "1.prems" have "execute stop_at world r = stop r"
      by (subst execute.simps) simp
    then show ?thesis by (simp add: stop_def)
  next
    case False
    define r1 where "r1 = r\<lparr>tick := tick r + 1, steps := steps r @ [tick r + 1]\<rparr>"
    define r2 where "r2 = Model_step_stop (world (tick r1)) r1"
    define r3 where "r3 = (if tick r1 = stop_at then stop r2 else r2)"
    have ex: "execute stop_at world r = execute stop_at world r3"
      using "1.prems" False by (subst execute.simps) (simp add: r1_def r2_def r3_def Let_def)
    have t3: "tick r3 = Suc (tick r)" "steps r3 = steps r @ [Suc (tick r)]"
      by (simp_all add: r3_def r2_def r1_def Model_step_stop_def stop_def)
    show ?thesis
    proof (cases "go r3")
      case True
      have IH: "tick r3 \<le> tick (execute stop_at world r3)
        \<and> steps (execute stop_at world r3)
           = steps r3 @ [Suc (tick r3)..<Suc (tick (execute stop_at world r3))]"
        using "1.IH" [OF _ _ r1_def r2_def r3_def True] "1.prems" False by simp
      then have le: "Suc (tick r) \<le> tick (execute stop_at world r3)"
        using t3 by simp
      have "[Suc (tick r)..<Suc (tick (execute stop_at world r3))]
              = Suc (tick r) # [Suc (Suc (tick r))..<Suc (tick (execute stop_at world r3))]"
        using le by (simp add: upt_conv_Cons)
      with IH ex t3 le show ?thesis by simp
    next
      case False
      then have "execute stop_at world r3 = r3" by (rule execute_stopped)
      with ex t3 show ?thesis by simp
    qed
  qed
qed

lemma local_unhappy_count: "local_unhappy ags = length (filter (\<lambda>a. \<not> happy a) ags)"
proof -
  have "length (filter happy ags) + length (filter (\<lambda>a. \<not> happy a) ags) = length ags"
    by (rule sum_length_filter_compl)
  then show ?thesis by (simp add: local_unhappy_def)
qed

lemma total_unhappy_count:
  "total_unhappy ranks = length (filter (\<lambda>a. \<not> happy a) (concat ranks))"
  by (induction ranks) (simp_all add: total_unhappy_def local_unhappy_count)

lemma total_unhappy_zero_iff:
  "total_unhappy ranks = 0 \<longleftrightarrow> (\<forall>ags\<in>set ranks. \<forall>a\<in>set ags. happy a)"
  by (auto simp: total_unhappy_count filter_empty_conv)

text \<open>
  C1. The reduced count that \<open>Model.step\<close> tests is the number of unhappy agents over all
  ranks, and it is 0 exactly when every agent of every rank is happy. The run leaves Running
  (\<open>go\<close> becomes false) for every maximum and every world. The ticks at which \<open>step\<close> ran
  are \<open>1, 2, \<dots>\<close> up to the last one, in order; tick \<open>t\<close> runs exactly when \<open>t\<close> is at most
  the configured maximum and every earlier tick ended with an unhappy agent on some rank; so
  no tick beyond the maximum runs, and after a tick \<open>t\<close> the next one runs exactly when
  neither the reduced count after \<open>t\<close> is 0 nor \<open>t\<close> is the maximum.
\<close>

theorem run_leaves_running:
  "total_unhappy ranks = length (filter (\<lambda>a. \<not> happy a) (concat ranks))
   \<and> (total_unhappy ranks = 0 \<longleftrightarrow> (\<forall>ags\<in>set ranks. \<forall>a\<in>set ags. happy a))
   \<and> set (steps (run stop_at world))
       = {t. 1 \<le> t \<and> t \<le> stop_at
             \<and> (\<forall>s. 1 \<le> s \<and> s < t \<longrightarrow> (\<exists>ags\<in>set (world s). \<exists>a\<in>set ags. \<not> happy a))}
   \<and> \<not> go (run stop_at world)
   \<and> steps (run stop_at world) = [1..<Suc (tick (run stop_at world))]
   \<and> set (steps (run stop_at world))
       = {t. 1 \<le> t \<and> t \<le> stop_at \<and> (\<forall>s. 1 \<le> s \<and> s < t \<longrightarrow> total_unhappy (world s) \<noteq> 0)}
   \<and> (\<forall>t \<in> set (steps (run stop_at world)).
         t \<le> stop_at
       \<and> (Suc t \<in> set (steps (run stop_at world))
            \<longleftrightarrow> \<not> (total_unhappy (world t) = 0 \<or> t = stop_at)))"
proof -
  let ?r0 = "\<lparr>tick = 0, go = True, steps = []\<rparr>"
  have g: "go ?r0" by simp
  have S: "set (steps (run stop_at world))
       = {t. 1 \<le> t \<and> t \<le> stop_at \<and> (\<forall>s. 1 \<le> s \<and> s < t \<longrightarrow> total_unhappy (world s) \<noteq> 0)}"
    using execute_result [OF g, of stop_at world] by (auto simp: run_def Suc_le_eq)
  have G: "\<not> go (run stop_at world)"
    using execute_result [OF g, of stop_at world] by (simp add: run_def)
  have U: "steps (run stop_at world) = [1..<Suc (tick (run stop_at world))]"
    using execute_steps_upto [OF g, of stop_at world] by (simp add: run_def)
  have N: "\<forall>t \<in> set (steps (run stop_at world)).
         t \<le> stop_at
       \<and> (Suc t \<in> set (steps (run stop_at world))
            \<longleftrightarrow> \<not> (total_unhappy (world t) = 0 \<or> t = stop_at))"
  proof
    fix t assume t: "t \<in> set (steps (run stop_at world))"
    then have a: "1 \<le> t" "t \<le> stop_at" "\<forall>s. 1 \<le> s \<and> s < t \<longrightarrow> total_unhappy (world s) \<noteq> 0"
      unfolding S by auto
    have "Suc t \<in> set (steps (run stop_at world))
            \<longleftrightarrow> Suc t \<le> stop_at \<and> (\<forall>s. 1 \<le> s \<and> s < Suc t \<longrightarrow> total_unhappy (world s) \<noteq> 0)"
      unfolding S by simp
    also have "\<dots> \<longleftrightarrow> \<not> (total_unhappy (world t) = 0 \<or> t = stop_at)"
      using a by (auto simp: less_Suc_eq)
    finally show "t \<le> stop_at
       \<and> (Suc t \<in> set (steps (run stop_at world))
            \<longleftrightarrow> \<not> (total_unhappy (world t) = 0 \<or> t = stop_at))"
      using a by simp
  qed
  have C: "total_unhappy ranks = length (filter (\<lambda>a. \<not> happy a) (concat ranks))"
    by (rule total_unhappy_count)
  have Z: "total_unhappy ranks = 0 \<longleftrightarrow> (\<forall>ags\<in>set ranks. \<forall>a\<in>set ags. happy a)"
    by (rule total_unhappy_zero_iff)
  have A: "set (steps (run stop_at world))
       = {t. 1 \<le> t \<and> t \<le> stop_at
             \<and> (\<forall>s. 1 \<le> s \<and> s < t \<longrightarrow> (\<exists>ags\<in>set (world s). \<exists>a\<in>set ags. \<not> happy a))}"
    unfolding S by (simp add: total_unhappy_zero_iff)
  show ?thesis
    by (intro conjI) (rule C Z A G U S N)+
qed

lemma run_a: "run 5 world_settles = \<lparr>tick = 3, go = False, steps = [1, 2, 3]\<rparr>"
  by code_simp

lemma run_b: "run 3 world_saturated = \<lparr>tick = 3, go = False, steps = [1, 2, 3]\<rparr>"
  by code_simp

theorem run_leaves_running_witness:
  "steps (run 5 world_settles) = [1, 2, 3]
   \<and> total_unhappy (world_settles 1) = 2 \<and> total_unhappy (world_settles 2) = 1
   \<and> total_unhappy (world_settles 3) = 0
   \<and> happy (hd (world_settles 1 ! 0)) \<and> \<not> happy (hd (world_settles 1 ! 2))
   \<and> 3 \<in> set (steps (run 5 world_settles)) \<and> Suc 3 \<notin> set (steps (run 5 world_settles))
   \<and> steps (run 3 world_saturated) = [1, 2, 3] \<and> total_unhappy (world_saturated 3) \<noteq> 0
   \<and> 3 \<in> set (steps (run 3 world_saturated)) \<and> Suc 3 \<notin> set (steps (run 3 world_saturated))"
proof -
  have c1: "total_unhappy (world_settles 1) = 2"
    using run_leaves_running [of "world_settles 1" 5 world_settles, THEN conjunct1]
    by (simp add: world_settles_def new_agent_def)
  have c2: "total_unhappy (world_settles 2) = 1"
    using run_leaves_running [of "world_settles 2" 5 world_settles, THEN conjunct1]
    by (simp add: world_settles_def new_agent_def)
  have c3: "total_unhappy (world_settles 3) = 0"
    using run_leaves_running [of "world_settles 3" 5 world_settles, THEN conjunct1]
    by (simp add: world_settles_def new_agent_def)
  have c4: "total_unhappy (world_saturated 3) \<noteq> 0"
    using run_leaves_running [of "world_saturated 3" 3 world_saturated, THEN conjunct1]
    by (simp add: world_saturated_def new_agent_def)
  have h: "happy (hd (world_settles 1 ! 0)) \<and> \<not> happy (hd (world_settles 1 ! 2))"
    by (simp add: world_settles_def new_agent_def)
  from c1 c2 c3 c4 h show ?thesis by (simp add: run_a run_b)
qed

section \<open>Properties of the segregation metric\<close>









































lemma loop_pair: "calculate_morans_i_loop grid_pair = Some (- 1)"
  by code_simp



lemma conv_square: "calculate_morans_i_conv grid_square = Some (- (1 / 2))"
  by code_simp









end
